theory Spec2Isabelle
  imports Complex_Main
begin

section \<open>SteamTracker: price history, event detection and sale reminders\<close>

text \<open>
  A shallow embedding of \<^verbatim>\<open>steam_price_bot.py\<close>. Every function that touches the
  SQLite file takes the database as an argument and returns the new one. The clock
  (\<^verbatim>\<open>datetime.now()\<close>) and the availability of the database file are inputs of each
  call. An exception that leaves a function is an \<open>Inl\<close> result.

  Prices are Python floats obtained as \<^verbatim>\<open>final / 100\<close> from the storefront's integer
  minor units; the model computes with exact rationals. Names that are not ASCII in the
  source (the keys of the sale calendar, the region label of an event row) are written
  in English.
\<close>

subsection \<open>Python values the program relies on\<close>

datatype py_error = ValueError | UnboundLocalError | DeliveryError

text \<open>
  A naive \<^verbatim>\<open>datetime\<close>: its fields, the proleptic Gregorian ordinal of its date, the
  order Python compares by and the \<^verbatim>\<open>.days\<close> of a difference (a \<^verbatim>\<open>timedelta\<close> is
  normalised, so \<^verbatim>\<open>.days\<close> is the floor of the difference in days).
\<close>

record datetime =
  dt_year :: int
  dt_month :: int
  dt_day :: int
  dt_hour :: int
  dt_minute :: int
  dt_second :: int
  dt_microsecond :: int

definition is_leap :: "int \<Rightarrow> bool" where
  "is_leap y \<longleftrightarrow> y mod 4 = 0 \<and> (y mod 100 \<noteq> 0 \<or> y mod 400 = 0)"

definition days_in_month :: "int \<Rightarrow> int \<Rightarrow> int" where
  "days_in_month y m =
     (if m = 2 then (if is_leap y then 29 else 28)
      else if m = 4 \<or> m = 6 \<or> m = 9 \<or> m = 11 then 30 else 31)"

definition days_before_year :: "int \<Rightarrow> int" where
  "days_before_year y = (y - 1) * 365 + (y - 1) div 4 - (y - 1) div 100 + (y - 1) div 400"

definition days_before_month :: "int \<Rightarrow> int \<Rightarrow> int" where
  "days_before_month y m =
     (if m = 1 then 0 else if m = 2 then 31 else if m = 3 then 59 else if m = 4 then 90
      else if m = 5 then 120 else if m = 6 then 151 else if m = 7 then 181
      else if m = 8 then 212 else if m = 9 then 243 else if m = 10 then 273
      else if m = 11 then 304 else 334)
     + (if m > 2 \<and> is_leap y then 1 else 0)"

definition toordinal :: "datetime \<Rightarrow> int" where
  "toordinal d = days_before_year (dt_year d) + days_before_month (dt_year d) (dt_month d) + dt_day d"

definition microseconds_of_day :: "datetime \<Rightarrow> int" where
  "microseconds_of_day d =
     ((dt_hour d * 60 + dt_minute d) * 60 + dt_second d) * 1000000 + dt_microsecond d"

definition total_microseconds :: "datetime \<Rightarrow> int" where
  "total_microseconds d = toordinal d * 86400000000 + microseconds_of_day d"

fun lex_less :: "int list \<Rightarrow> int list \<Rightarrow> bool" where
  "lex_less (x # xs) (y # ys) = (x < y \<or> (x = y \<and> lex_less xs ys))"
| "lex_less _ _ = False"

definition dt_fields :: "datetime \<Rightarrow> int list" where
  "dt_fields d =
     [dt_year d, dt_month d, dt_day d, dt_hour d, dt_minute d, dt_second d, dt_microsecond d]"

definition dt_less :: "datetime \<Rightarrow> datetime \<Rightarrow> bool" where
  "dt_less a b = lex_less (dt_fields a) (dt_fields b)"

definition delta_days :: "datetime \<Rightarrow> datetime \<Rightarrow> int" where
  "delta_days a b = (total_microseconds a - total_microseconds b) div 86400000000"

text \<open>\<^verbatim>\<open>datetime(y, m, d)\<close>: midnight of that date, or \<^verbatim>\<open>ValueError\<close>.\<close>

definition mk_datetime :: "int \<Rightarrow> int \<Rightarrow> int \<Rightarrow> py_error + datetime" where
  "mk_datetime y m d =
     (if 1 \<le> y \<and> y \<le> 9999 \<and> 1 \<le> m \<and> m \<le> 12 \<and> 1 \<le> d \<and> d \<le> days_in_month y m
      then Inr \<lparr>dt_year = y, dt_month = m, dt_day = d, dt_hour = 0, dt_minute = 0,
                dt_second = 0, dt_microsecond = 0\<rparr>
      else Inl ValueError)"

subsection \<open>The sale calendar\<close>

record sale_info =
  month :: int
  start_day :: int
  duration :: int
  emoji :: string

text \<open>
  \<^verbatim>\<open>STEAM_SALES_CALENDAR\<close>, in the order the dictionary literal lists its entries (a
  Python dictionary iterates in insertion order).
\<close>

definition STEAM_SALES_CALENDAR :: "(string \<times> sale_info) list" where
  "STEAM_SALES_CALENDAR =
     [(''Spring Sale'', \<lparr>month = 3, start_day = 14, duration = 14, emoji = ''blossom''\<rparr>),
      (''Summer Sale'', \<lparr>month = 6, start_day = 23, duration = 14, emoji = ''sun''\<rparr>),
      (''Autumn Sale'', \<lparr>month = 11, start_day = 21, duration = 14, emoji = ''leaf''\<rparr>),
      (''Winter Sale'', \<lparr>month = 12, start_day = 20, duration = 14, emoji = ''snowflake''\<rparr>),
      (''Lunar New Year Sale'', \<lparr>month = 2, start_day = 1, duration = 7, emoji = ''envelope''\<rparr>),
      (''Halloween Sale'', \<lparr>month = 10, start_day = 28, duration = 7, emoji = ''pumpkin''\<rparr>)]"

record upcoming_sale =
  us_name :: string
  us_date :: datetime
  us_days_until :: int
  us_emoji :: string
  us_duration :: int

text \<open>
  The occurrence \<^verbatim>\<open>check_upcoming_sales\<close> computes for one entry: this year's start at
  midnight, or next year's when that instant is before \<^verbatim>\<open>now\<close>.
\<close>

definition sale_occurrence :: "datetime \<Rightarrow> sale_info \<Rightarrow> py_error + datetime" where
  "sale_occurrence now info =
     (case mk_datetime (dt_year now) (month info) (start_day info) of
        Inl e \<Rightarrow> Inl e
      | Inr sale_date \<Rightarrow>
          if dt_less sale_date now
          then mk_datetime (dt_year now + 1) (month info) (start_day info)
          else Inr sale_date)"

fun upcoming_loop :: "datetime \<Rightarrow> (string \<times> sale_info) list \<Rightarrow> upcoming_sale list
    \<Rightarrow> py_error + upcoming_sale list" where
  "upcoming_loop now [] upcoming_sales = Inr upcoming_sales"
| "upcoming_loop now ((sale_name, info) # rest) upcoming_sales =
     (case sale_occurrence now info of
        Inl e \<Rightarrow> Inl e
      | Inr sale_date \<Rightarrow>
          (let days_until = delta_days sale_date now in
           if 0 \<le> days_until \<and> days_until \<le> 7
           then upcoming_loop now rest
                  (upcoming_sales @
                    [\<lparr>us_name = sale_name, us_date = sale_date, us_days_until = days_until,
                      us_emoji = emoji info, us_duration = duration info\<rparr>])
           else upcoming_loop now rest upcoming_sales))"

definition check_upcoming_sales :: "datetime \<Rightarrow> py_error + upcoming_sale list" where
  "check_upcoming_sales now = upcoming_loop now STEAM_SALES_CALENDAR []"

subsection \<open>The database\<close>

type_synonym app_id = int
type_synonym region = string
type_synonym price = rat

record tracked_game =
  tg_name :: string
  tg_last_check :: datetime
  tg_is_free :: bool
  tg_image_url :: "string option"

record new_low_event =
  nle_app_id :: app_id
  nle_game_name :: string
  nle_region :: string
  nle_price :: price
  nle_currency :: string
  nle_date :: datetime

record free_game_event =
  fge_app_id :: app_id
  fge_game_name :: string
  fge_date :: datetime

record sale_notification =
  sn_sale_name :: string
  sn_notification_date :: datetime
  sn_year :: int

text \<open>
  The tables \<^verbatim>\<open>init_db\<close> creates. A table with a primary key is a map from the key;
  a table whose only key is its \<^verbatim>\<open>AUTOINCREMENT\<close> id is the list of its rows in
  insertion order (no statement of the program deletes from such a table, and the id is
  read only to test whether a row exists; SQLite's own counter of ids is not part of
  the model). A \<^verbatim>\<open>TEXT\<close> column that holds \<^verbatim>\<open>datetime.now().isoformat()\<close> holds the
  \<open>datetime\<close> itself.
\<close>

record db =
  price_history :: "(app_id \<times> region \<times> datetime) \<rightharpoonup> (price \<times> int)"
  tracked_games :: "app_id \<rightharpoonup> tracked_game"
  historical_low :: "(app_id \<times> region) \<rightharpoonup> (price \<times> datetime)"
  server_settings :: "int \<rightharpoonup> (int \<times> datetime \<times> bool)"
  new_low_events :: "new_low_event list"
  free_game_events :: "free_game_event list"
  user_wishlist :: "(int \<times> app_id) \<rightharpoonup> (datetime \<times> price option)"
  sale_notifications :: "sale_notification list"

definition init_db :: db where
  "init_db =
     \<lparr>price_history = Map.empty, tracked_games = Map.empty, historical_low = Map.empty,
      server_settings = Map.empty, new_low_events = [], free_game_events = [],
      user_wishlist = Map.empty, sale_notifications = []\<rparr>"

text \<open>
  What the database file does during one call. Every function opens its own connection
  inside \<^verbatim>\<open>try\<close>, logs any exception and closes the connection in \<^verbatim>\<open>finally\<close>:
  \<^item> \<open>Available\<close>: every statement and the commit succeed;
  \<^item> \<open>ExecuteFails\<close>: \<^verbatim>\<open>connect\<close> succeeds and a later statement or the commit raises;
    the handler returns the function's default, and closing the connection discards
    the uncommitted transaction;
  \<^item> \<open>ConnectFails\<close>: \<^verbatim>\<open>sqlite3.connect\<close> raises, so \<^verbatim>\<open>conn\<close> is never bound and
    \<^verbatim>\<open>conn.close()\<close> in \<^verbatim>\<open>finally\<close> raises \<^verbatim>\<open>UnboundLocalError\<close>, which leaves the
    function in place of the handler's return value.
\<close>

datatype store_status = Available | ExecuteFails | ConnectFails

subsection \<open>Sale reminders already sent\<close>

definition is_sale_notified :: "store_status \<Rightarrow> db \<Rightarrow> string \<Rightarrow> int \<Rightarrow> py_error + bool" where
  "is_sale_notified st d sale_name year =
     (case st of
        ConnectFails \<Rightarrow> Inl UnboundLocalError
      | ExecuteFails \<Rightarrow> Inr False
      | Available \<Rightarrow>
          Inr (\<exists>r \<in> set (sale_notifications d). sn_sale_name r = sale_name \<and> sn_year r = year))"

text \<open>
  \<^verbatim>\<open>INSERT OR IGNORE\<close> under \<^verbatim>\<open>UNIQUE(sale_name, year)\<close>: the row is added unless a row
  with that name and year is already there.
\<close>

definition mark_sale_notified :: "store_status \<Rightarrow> datetime \<Rightarrow> db \<Rightarrow> string \<Rightarrow> int
    \<Rightarrow> (py_error + unit) \<times> db" where
  "mark_sale_notified st now d sale_name year =
     (case st of
        ConnectFails \<Rightarrow> (Inl UnboundLocalError, d)
      | ExecuteFails \<Rightarrow> (Inr (), d)
      | Available \<Rightarrow>
          if \<exists>r \<in> set (sale_notifications d). sn_sale_name r = sale_name \<and> sn_year r = year
          then (Inr (), d)
          else (Inr (),
                d\<lparr>sale_notifications := sale_notifications d @
                     [\<lparr>sn_sale_name = sale_name, sn_notification_date = now, sn_year = year\<rparr>]\<rparr>))"

subsection \<open>Price checks\<close>

text \<open>
  \<^verbatim>\<open>check_historical_low\<close> returns \<^verbatim>\<open>(is_new_low, old_price, price_drop_percent)\<close>.
  The division is reached only with \<^verbatim>\<open>0 < current_price < old_price\<close>; a zero divisor
  would raise inside \<^verbatim>\<open>try\<close> and give the handler's default.
\<close>

definition check_historical_low :: "store_status \<Rightarrow> datetime \<Rightarrow> db \<Rightarrow> app_id \<Rightarrow> region \<Rightarrow> price
    \<Rightarrow> (py_error + bool \<times> price option \<times> price) \<times> db" where
  "check_historical_low st now d app region current_price =
     (case st of
        ConnectFails \<Rightarrow> (Inl UnboundLocalError, d)
      | ExecuteFails \<Rightarrow> (Inr (False, None, 0), d)
      | Available \<Rightarrow>
          (case historical_low d (app, region) of
             None \<Rightarrow>
               (Inr (True, None, 0),
                d\<lparr>historical_low := (historical_low d)((app, region) \<mapsto> (current_price, now))\<rparr>)
           | Some (lowest, date) \<Rightarrow>
               if current_price < lowest \<and> current_price > 0
               then (if lowest = 0 then (Inr (False, None, 0), d)
                     else (Inr (True, Some lowest, (lowest - current_price) / lowest * 100),
                           d\<lparr>historical_low :=
                               (historical_low d)((app, region) \<mapsto> (current_price, now))\<rparr>))
               else (Inr (False, None, 0), d)))"

definition check_free_game :: "store_status \<Rightarrow> db \<Rightarrow> app_id \<Rightarrow> bool \<Rightarrow> (py_error + bool) \<times> db" where
  "check_free_game st d app is_currently_free =
     (case st of
        ConnectFails \<Rightarrow> (Inl UnboundLocalError, d)
      | ExecuteFails \<Rightarrow> (Inr False, d)
      | Available \<Rightarrow>
          (case tracked_games d app of
             None \<Rightarrow> (Inr False, d)
           | Some g \<Rightarrow>
               if \<not> tg_is_free g \<and> is_currently_free
               then (Inr True,
                     d\<lparr>tracked_games :=
                         (tracked_games d)(app \<mapsto> g\<lparr>tg_is_free := is_currently_free\<rparr>)\<rparr>)
               else (Inr False, d)))"

definition add_tracked_game :: "store_status \<Rightarrow> datetime \<Rightarrow> db \<Rightarrow> app_id \<Rightarrow> string \<Rightarrow> bool
    \<Rightarrow> string option \<Rightarrow> (py_error + unit) \<times> db" where
  "add_tracked_game st now d app name is_free image_url =
     (case st of
        ConnectFails \<Rightarrow> (Inl UnboundLocalError, d)
      | ExecuteFails \<Rightarrow> (Inr (), d)
      | Available \<Rightarrow>
          (Inr (),
           d\<lparr>tracked_games := (tracked_games d)(app \<mapsto>
                \<lparr>tg_name = name, tg_last_check = now, tg_is_free = is_free,
                 tg_image_url = image_url\<rparr>)\<rparr>))"

definition record_price :: "store_status \<Rightarrow> datetime \<Rightarrow> db \<Rightarrow> app_id \<Rightarrow> region \<Rightarrow> price \<Rightarrow> int
    \<Rightarrow> (py_error + unit) \<times> db" where
  "record_price st now d app region p discount =
     (case st of
        ConnectFails \<Rightarrow> (Inl UnboundLocalError, d)
      | ExecuteFails \<Rightarrow> (Inr (), d)
      | Available \<Rightarrow>
          (Inr (), d\<lparr>price_history := (price_history d)((app, region, now) \<mapsto> (p, discount))\<rparr>))"

definition record_new_low_event :: "store_status \<Rightarrow> datetime \<Rightarrow> db \<Rightarrow> app_id \<Rightarrow> string \<Rightarrow> string
    \<Rightarrow> price \<Rightarrow> string \<Rightarrow> (py_error + unit) \<times> db" where
  "record_new_low_event st now d app game_name region p currency =
     (case st of
        ConnectFails \<Rightarrow> (Inl UnboundLocalError, d)
      | ExecuteFails \<Rightarrow> (Inr (), d)
      | Available \<Rightarrow>
          (Inr (),
           d\<lparr>new_low_events := new_low_events d @
                [\<lparr>nle_app_id = app, nle_game_name = game_name, nle_region = region,
                  nle_price = p, nle_currency = currency, nle_date = now\<rparr>]\<rparr>))"

definition record_free_game_event :: "store_status \<Rightarrow> datetime \<Rightarrow> db \<Rightarrow> app_id \<Rightarrow> string
    \<Rightarrow> (py_error + unit) \<times> db" where
  "record_free_game_event st now d app game_name =
     (case st of
        ConnectFails \<Rightarrow> (Inl UnboundLocalError, d)
      | ExecuteFails \<Rightarrow> (Inr (), d)
      | Available \<Rightarrow>
          (Inr (),
           d\<lparr>free_game_events := free_game_events d @
                [\<lparr>fge_app_id = app, fge_game_name = game_name, fge_date = now\<rparr>]\<rparr>))"

definition get_historical_low_price :: "store_status \<Rightarrow> db \<Rightarrow> app_id \<Rightarrow> region
    \<Rightarrow> py_error + (price \<times> datetime) option" where
  "get_historical_low_price st d app region =
     (case st of
        ConnectFails \<Rightarrow> Inl UnboundLocalError
      | ExecuteFails \<Rightarrow> Inr None
      | Available \<Rightarrow> Inr (historical_low d (app, region)))"

subsection \<open>Removing a game from the tracking list\<close>

datatype untrack_reply = Removed string | NotFound | OperationFailed

text \<open>
  The command \<^verbatim>\<open>untrack_game\<close>: its reply and the database it leaves. Any exception
  is caught and reported as a failed operation; nothing was committed then.
\<close>

definition untrack_game :: "store_status \<Rightarrow> db \<Rightarrow> app_id \<Rightarrow> untrack_reply \<times> db" where
  "untrack_game st d app =
     (case st of
        ConnectFails \<Rightarrow> (OperationFailed, d)
      | ExecuteFails \<Rightarrow> (OperationFailed, d)
      | Available \<Rightarrow>
          (case tracked_games d app of
             Some g \<Rightarrow> (Removed (tg_name g), d\<lparr>tracked_games := (tracked_games d)(app := None)\<rparr>)
           | None \<Rightarrow> (NotFound, d)))"

subsection \<open>One tracked game in the hourly price check\<close>

text \<open>
  What \<^verbatim>\<open>get_steam_game_info\<close> returned for the game: the keys the loop reads.
  \<^verbatim>\<open>is_free\<close> and \<^verbatim>\<open>discount_percent\<close> are read with a default.
\<close>

record price_overview =
  po_final :: int
  po_currency :: string
  po_discount_percent :: "int option"

record game_info =
  gi_is_free :: "bool option"
  gi_price_overview :: "price_overview option"
  gi_header_image :: "string option"

text \<open>
  The two messages the loop sends. A new-low message shows the drop and the previous
  low only when \<^verbatim>\<open>old_price\<close> is truthy (neither \<^verbatim>\<open>None\<close> nor zero).
\<close>

datatype notification =
    FreeGameNotice app_id string "string option"
  | NewLowNotice app_id string string price int "(price \<times> price) option" "string option"

fun is_new_low_notice :: "notification \<Rightarrow> bool" where
  "is_new_low_notice (NewLowNotice app name currency p discount old img) = True"
| "is_new_low_notice (FreeGameNotice app name img) = False"

datatype call_site = AtCheckFree | AtRecordFree | AtRecordPrice | AtCheckLow | AtRecordNewLow

text \<open>
  What surrounds one pass of the loop body: the state of the database file and the
  clock reading at each database call, which channels \<^verbatim>\<open>bot.get_channel\<close> finds and
  for which of them \<^verbatim>\<open>channel.send\<close> raises.
\<close>

record env =
  store :: "call_site \<Rightarrow> store_status"
  clock :: "call_site \<Rightarrow> datetime"
  get_channel :: "int \<Rightarrow> bool"
  send_fails :: "int \<Rightarrow> bool"

type_synonym channel_row = "int \<times> int \<times> bool"
type_synonym outbox = "(int \<times> notification) list"

fun send_to_all :: "env \<Rightarrow> channel_row list \<Rightarrow> notification \<Rightarrow> outbox \<Rightarrow> py_error option \<times> outbox" where
  "send_to_all e [] n sent = (None, sent)"
| "send_to_all e ((guild_id, channel_id, enable_sale) # rest) n sent =
     (if get_channel e channel_id
      then (if send_fails e channel_id then (Some DeliveryError, sent)
            else send_to_all e rest n (sent @ [(channel_id, n)]))
      else send_to_all e rest n sent)"

text \<open>The first block of the loop body: the free-game check and its message.\<close>

definition monitor_free :: "env \<Rightarrow> channel_row list \<Rightarrow> db \<Rightarrow> app_id \<Rightarrow> string \<Rightarrow> game_info
    \<Rightarrow> py_error option \<times> outbox \<times> db" where
  "monitor_free e channels_info d app name gi =
     (let is_free = (case gi_is_free gi of None \<Rightarrow> False | Some b \<Rightarrow> b) in
      case check_free_game (store e AtCheckFree) d app is_free of
        (Inl err, d1) \<Rightarrow> (Some err, [], d1)
      | (Inr False, d1) \<Rightarrow> (None, [], d1)
      | (Inr True, d1) \<Rightarrow>
          (case record_free_game_event (store e AtRecordFree) (clock e AtRecordFree) d1 app name of
             (Inl err, d2) \<Rightarrow> (Some err, [], d2)
           | (Inr u, d2) \<Rightarrow>
               (case send_to_all e channels_info (FreeGameNotice app name (gi_header_image gi)) [] of
                  (r, sent) \<Rightarrow> (r, sent, d2))))"

text \<open>The second block: the price record, the historical-low check and its message.\<close>

definition monitor_price :: "env \<Rightarrow> channel_row list \<Rightarrow> db \<Rightarrow> app_id \<Rightarrow> string \<Rightarrow> game_info
    \<Rightarrow> py_error option \<times> outbox \<times> db" where
  "monitor_price e channels_info d app name gi =
     (let is_free = (case gi_is_free gi of None \<Rightarrow> False | Some b \<Rightarrow> b) in
      case gi_price_overview gi of
        None \<Rightarrow> (None, [], d)
      | Some price_data \<Rightarrow>
          if is_free then (None, [], d)
          else
            (let current_price = of_int (po_final price_data) / 100;
                 currency = po_currency price_data;
                 discount = (case po_discount_percent price_data of None \<Rightarrow> 0 | Some x \<Rightarrow> x)
             in
             case record_price (store e AtRecordPrice) (clock e AtRecordPrice) d app ''tw''
                    current_price discount of
               (Inl err, d1) \<Rightarrow> (Some err, [], d1)
             | (Inr u, d1) \<Rightarrow>
                 (case check_historical_low (store e AtCheckLow) (clock e AtCheckLow) d1 app ''tw''
                         current_price of
                    (Inl err, d2) \<Rightarrow> (Some err, [], d2)
                  | (Inr (is_new_low, old_price, price_drop_percent), d2) \<Rightarrow>
                      if is_new_low
                      then
                        (case record_new_low_event (store e AtRecordNewLow) (clock e AtRecordNewLow)
                                d2 app name ''Taiwan'' current_price currency of
                           (Inl err, d3) \<Rightarrow> (Some err, [], d3)
                         | (Inr u, d3) \<Rightarrow>
                             (case send_to_all e channels_info
                                     (NewLowNotice app name currency current_price discount
                                        (case old_price of
                                           None \<Rightarrow> None
                                         | Some old \<Rightarrow>
                                             if old = 0 then None
                                             else Some (price_drop_percent, old))
                                        (gi_header_image gi)) [] of
                                (r, sent) \<Rightarrow> (r, sent, d3)))
                      else (None, [], d2))))"

text \<open>
  \<^verbatim>\<open>monitor_prices\<close> for one tracked game. With no channel configured it returns
  before the loop (\<^verbatim>\<open>if not channels_info: return\<close>) and nothing is read or written.
  Otherwise the body of the \<^verbatim>\<open>for\<close> loop runs for the game: a game whose details
  could not be fetched is skipped, and an exception ends the pass for this game (it is
  logged and the loop goes on). The result is the exception, if any, the messages sent
  and the database.
\<close>

definition monitor_game :: "env \<Rightarrow> channel_row list \<Rightarrow> db \<Rightarrow> app_id \<Rightarrow> string \<Rightarrow> game_info option
    \<Rightarrow> py_error option \<times> outbox \<times> db" where
  "monitor_game e channels_info d app name game_info =
     (if channels_info = [] then (None, [], d)
      else
        (case game_info of
           None \<Rightarrow> (None, [], d)
         | Some gi \<Rightarrow>
             (case monitor_free e channels_info d app name gi of
                (Some err, sent, d1) \<Rightarrow> (Some err, sent, d1)
              | (None, sent, d1) \<Rightarrow>
                  (case monitor_price e channels_info d1 app name gi of
                     (r, sent2, d2) \<Rightarrow> (r, sent @ sent2, d2)))))"

text \<open>
  The same game over successive hourly passes: what each pass sent, and the database
  after the last one.
\<close>

fun monitor_run :: "channel_row list \<Rightarrow> db \<Rightarrow> app_id \<Rightarrow> string \<Rightarrow> (env \<times> game_info option) list
    \<Rightarrow> outbox list \<times> db" where
  "monitor_run channels_info d app name [] = ([], d)"
| "monitor_run channels_info d app name ((e, game_info) # rest) =
     (case monitor_game e channels_info d app name game_info of
        (r, sent, d1) \<Rightarrow>
          (case monitor_run channels_info d1 app name rest of
             (sents, d2) \<Rightarrow> (sent # sents, d2)))"

text \<open>Successive calls of \<^verbatim>\<open>check_historical_low\<close>, for any games and regions.\<close>

fun check_low_run :: "db \<Rightarrow> (store_status \<times> datetime \<times> app_id \<times> region \<times> price) list \<Rightarrow> db" where
  "check_low_run d [] = d"
| "check_low_run d ((st, now, app, region, p) # rest) =
     check_low_run (snd (check_historical_low st now d app region p)) rest"

subsection \<open>Drivers and sample inputs\<close>

text \<open>The key of the uniqueness constraint on \<^verbatim>\<open>sale_notifications\<close>.\<close>

definition sale_key :: "sale_notification \<Rightarrow> string \<times> int" where
  "sale_key r = (sn_sale_name r, sn_year r)"

text \<open>Successive calls of \<^verbatim>\<open>mark_sale_notified\<close>, the only writer of that table.\<close>

fun mark_run :: "db \<Rightarrow> (store_status \<times> datetime \<times> string \<times> int) list \<Rightarrow> db" where
  "mark_run d [] = d"
| "mark_run d ((st, now, sale_name, year) # rest) =
     mark_run (snd (mark_sale_notified st now d sale_name year)) rest"

definition at_time :: "int \<Rightarrow> int \<Rightarrow> int \<Rightarrow> int \<Rightarrow> datetime" where
  "at_time y m d h =
     \<lparr>dt_year = y, dt_month = m, dt_day = d, dt_hour = h, dt_minute = 0, dt_second = 0,
      dt_microsecond = 0\<rparr>"

text \<open>
  A pass in which every database call succeeds, every channel is found and every send
  goes through, at hour \<open>h\<close> of 1 January 2026; one configured channel; a paid game at a
  price in minor units; a free game; a database that tracks game 7 as paid.
\<close>

definition calm :: "int \<Rightarrow> env" where
  "calm h =
     \<lparr>store = (\<lambda>s. Available), clock = (\<lambda>s. at_time 2026 1 1 h),
      get_channel = (\<lambda>c. True), send_fails = (\<lambda>c. False)\<rparr>"

definition one_channel :: "channel_row list" where
  "one_channel = [(1, 10, True)]"

definition paid :: "int \<Rightarrow> game_info" where
  "paid cents =
     \<lparr>gi_is_free = Some False,
      gi_price_overview =
        Some \<lparr>po_final = cents, po_currency = ''TWD'', po_discount_percent = Some 0\<rparr>,
      gi_header_image = None\<rparr>"

definition free_now :: game_info where
  "free_now = \<lparr>gi_is_free = Some True, gi_price_overview = None, gi_header_image = None\<rparr>"

definition tracking_E :: db where
  "tracking_E =
     init_db\<lparr>tracked_games :=
       [7 \<mapsto> \<lparr>tg_name = ''E'', tg_last_check = at_time 2026 1 1 0, tg_is_free = False,
               tg_image_url = None\<rparr>]\<rparr>"

text \<open>
  The \<^verbatim>\<open>SELECT lowest_price FROM historical_low WHERE app_id=? AND region=?\<close> of
  \<^verbatim>\<open>check_historical_low\<close>, and the prices a sequence of calls passes for one game and
  region.
\<close>

definition stored_low :: "db \<Rightarrow> app_id \<times> region \<Rightarrow> price option" where
  "stored_low d k = map_option fst (historical_low d k)"

definition prices_for :: "app_id \<times> region
    \<Rightarrow> (store_status \<times> datetime \<times> app_id \<times> region \<times> price) list \<Rightarrow> price list" where
  "prices_for k calls =
     map (\<lambda>(st, now, app, region, p). p)
       (filter (\<lambda>(st, now, app, region, p). (app, region) = k) calls)"

text \<open>
  A database in which game 7 has a stored low of 100 in region \<^verbatim>\<open>tw\<close>, and a pass in
  which only the insert into \<^verbatim>\<open>new_low_events\<close> fails.
\<close>

definition low_100 :: db where
  "low_100 = tracking_E\<lparr>historical_low := [(7, ''tw'') \<mapsto> (100, at_time 2026 1 1 0)]\<rparr>"

definition event_log_down :: "int \<Rightarrow> env" where
  "event_log_down h =
     (calm h)\<lparr>store := (\<lambda>s. if s = AtRecordNewLow then ExecuteFails else Available)\<rparr>"

section \<open>Verified properties\<close>

subsection \<open>Sale reminders are marked at most once\<close>

lemma mark_keeps_distinct:
  "distinct (map sale_key (sale_notifications d)) \<Longrightarrow>
   distinct (map sale_key (sale_notifications (snd (mark_sale_notified st now d n y))))"
  by (cases st) (auto simp: mark_sale_notified_def sale_key_def)

lemma mark_run_keeps_distinct:
  "distinct (map sale_key (sale_notifications d)) \<Longrightarrow>
   distinct (map sale_key (sale_notifications (mark_run d calls)))"
proof (induction calls arbitrary: d)
  case Nil
  then show ?case by simp
next
  case (Cons c calls)
  obtain st now n y where c: "c = (st, now, n, y)" by (cases c) auto
  show ?case unfolding c mark_run.simps
    by (rule Cons.IH) (rule mark_keeps_distinct [OF Cons.prems])
qed

text \<open>
  Claim C5. With the database available, marking a sale and year a second time (at any
  later clock reading) returns normally and leaves the database exactly as the first
  call left it; \<^verbatim>\<open>is_sale_notified\<close> answers \<^verbatim>\<open>True\<close> after one call and after two; and
  whatever calls of \<^verbatim>\<open>mark_sale_notified\<close> follow \<^verbatim>\<open>init_db\<close>, no two rows of
  \<^verbatim>\<open>sale_notifications\<close> share a name and year.
\<close>

theorem mark_sale_notified_idempotent:
  "snd (mark_sale_notified Available t2 (snd (mark_sale_notified Available t1 d n y)) n y)
     = snd (mark_sale_notified Available t1 d n y)
   \<and> fst (mark_sale_notified Available t2 (snd (mark_sale_notified Available t1 d n y)) n y) = Inr ()
   \<and> is_sale_notified Available (snd (mark_sale_notified Available t1 d n y)) n y = Inr True
   \<and> is_sale_notified Available
        (snd (mark_sale_notified Available t2 (snd (mark_sale_notified Available t1 d n y)) n y)) n y
      = Inr True
   \<and> distinct (map sale_key (sale_notifications (mark_run init_db calls)))"
proof -
  have seen: "\<exists>r \<in> set (sale_notifications (snd (mark_sale_notified Available t1 d n y))).
                sn_sale_name r = n \<and> sn_year r = y"
    by (auto simp: mark_sale_notified_def)
  have twice: "mark_sale_notified Available t2 (snd (mark_sale_notified Available t1 d n y)) n y
        = (Inr (), snd (mark_sale_notified Available t1 d n y))"
    using seen by (simp add: mark_sale_notified_def [of Available t2])
  have asked: "is_sale_notified Available (snd (mark_sale_notified Available t1 d n y)) n y = Inr True"
    using seen by (simp add: is_sale_notified_def)
  have "distinct (map sale_key (sale_notifications init_db))"
    by (simp add: init_db_def)
  then have uniq: "distinct (map sale_key (sale_notifications (mark_run init_db calls)))"
    by (rule mark_run_keeps_distinct)
  show ?thesis using twice asked uniq by simp
qed

theorem mark_sale_notified_idempotent_witness:
  "sale_notifications
     (snd (mark_sale_notified Available (at_time 2026 12 14 21)
        (snd (mark_sale_notified Available (at_time 2026 12 14 9) init_db ''Winter Sale'' 2026))
        ''Winter Sale'' 2026))
     = [\<lparr>sn_sale_name = ''Winter Sale'', sn_notification_date = at_time 2026 12 14 9,
         sn_year = 2026\<rparr>]
   \<and> is_sale_notified Available
        (snd (mark_sale_notified Available (at_time 2026 12 14 9) init_db ''Winter Sale'' 2026))
        ''Winter Sale'' 2026 = Inr True"
  using mark_sale_notified_idempotent
          [of "at_time 2026 12 14 21" "at_time 2026 12 14 9" init_db "''Winter Sale''" 2026 "[]"]
  by (simp add: mark_sale_notified_def init_db_def)

subsection \<open>Removing a game keeps its price history\<close>

text \<open>
  Claim C10. \<^verbatim>\<open>untrack_game\<close> changes at most the row of that game in
  \<^verbatim>\<open>tracked_games\<close>: \<^verbatim>\<open>historical_low\<close> and \<^verbatim>\<open>price_history\<close> are as before, and so
  are the rows of all other games. Tracking the game again leaves \<^verbatim>\<open>historical_low\<close>
  as it was before the removal, so the next \<^verbatim>\<open>check_historical_low\<close> gives the verdict
  it would have given had the game never been removed.
\<close>

theorem untrack_keeps_history:
  "snd (untrack_game st d app)
     = (if st = Available then d\<lparr>tracked_games := (tracked_games d)(app := None)\<rparr> else d)
   \<and> historical_low (snd (untrack_game st d app)) = historical_low d
   \<and> price_history (snd (untrack_game st d app)) = price_history d
   \<and> (\<forall>a. a \<noteq> app \<longrightarrow> tracked_games (snd (untrack_game st d app)) a = tracked_games d a)
   \<and> historical_low (snd (add_tracked_game st2 now (snd (untrack_game st d app)) app name f img))
       = historical_low d
   \<and> fst (check_historical_low st3 t
             (snd (add_tracked_game st2 now (snd (untrack_game st d app)) app name f img)) app r p)
       = fst (check_historical_low st3 t d app r p)"
proof -
  have gone: "snd (untrack_game st d app)
     = (if st = Available then d\<lparr>tracked_games := (tracked_games d)(app := None)\<rparr> else d)"
    by (cases st; cases "tracked_games d app") (simp_all add: untrack_game_def fun_upd_idem)
  have low: "historical_low (snd (add_tracked_game st2 now (snd (untrack_game st d app)) app name f img))
       = historical_low d"
    unfolding gone by (cases st2) (simp_all add: add_tracked_game_def)
  have verdict: "fst (check_historical_low st3 t d' app r p) = fst (check_historical_low st3 t d app r p)"
    if "historical_low d' = historical_low d" for d'
    using that by (cases st3) (auto simp: check_historical_low_def split: option.splits)
  show ?thesis using gone low verdict [OF low] by simp
qed

theorem untrack_keeps_history_witness:
  "tracked_games (snd (untrack_game Available tracking_E 7)) 7 = None
   \<and> historical_low (snd (untrack_game Available tracking_E 7)) = historical_low tracking_E
   \<and> fst (untrack_game Available tracking_E 7) = Removed ''E''"
  using untrack_keeps_history [of Available tracking_E 7]
  by (simp add: untrack_game_def tracking_E_def init_db_def)

subsection \<open>Free games\<close>

text \<open>
  Claim C7, as the claim states it, fails: for a game with no row in \<^verbatim>\<open>tracked_games\<close>
  that is observed free, \<^verbatim>\<open>check_free_game\<close> returns \<^verbatim>\<open>False\<close>, the pass sends nothing
  and the database stays as it was.
\<close>

theorem unknown_game_counterexample:
  "tracked_games init_db 7 = None
   \<and> check_free_game Available init_db 7 True = (Inr False, init_db)
   \<and> monitor_game (calm 1) one_channel init_db 7 ''E'' (Some free_now) = (None, [], init_db)"
  by (simp add: init_db_def check_free_game_def monitor_game_def monitor_free_def monitor_price_def
        calm_def free_now_def one_channel_def)

text \<open>
  Claim C7, amended. For a game with no row in \<^verbatim>\<open>tracked_games\<close> that is observed free,
  \<^verbatim>\<open>check_free_game\<close> returns \<^verbatim>\<open>False\<close> and the free-game block sends nothing and
  changes nothing (no row is created). For a game whose row has free-status false,
  \<^verbatim>\<open>check_free_game\<close> returns \<^verbatim>\<open>True\<close> and sets the stored free-status to true.
\<close>

theorem unknown_game_not_reported:
  "(tracked_games d app = None \<longrightarrow>
      check_free_game Available d app True = (Inr False, d)
      \<and> monitor_free e channels_info d app name gi
          = (if store e AtCheckFree = ConnectFails then Some UnboundLocalError else None, [], d))
   \<and> (tracked_games d app = Some g \<and> \<not> tg_is_free g \<longrightarrow>
        check_free_game Available d app True
          = (Inr True, d\<lparr>tracked_games := (tracked_games d)(app \<mapsto> g\<lparr>tg_is_free := True\<rparr>)\<rparr>))"
  by (cases "store e AtCheckFree") (auto simp: check_free_game_def monitor_free_def)

theorem unknown_game_not_reported_witness:
  "tracked_games init_db 7 = None
   \<and> monitor_free (calm 1) one_channel init_db 7 ''E'' free_now = (None, [], init_db)
   \<and> tracked_games tracking_E 7
       = Some \<lparr>tg_name = ''E'', tg_last_check = at_time 2026 1 1 0, tg_is_free = False,
               tg_image_url = None\<rparr>
   \<and> fst (check_free_game Available tracking_E 7 True) = Inr True"
  using unknown_game_not_reported [of init_db 7 "calm 1" one_channel "''E''" free_now]
    unknown_game_not_reported [of tracking_E 7 _ _ _ _
      "\<lparr>tg_name = ''E'', tg_last_check = at_time 2026 1 1 0, tg_is_free = False,
        tg_image_url = None\<rparr>"]
  by (simp add: init_db_def tracking_E_def calm_def)

lemma check_free_game_paid_keeps: "snd (check_free_game st d app False) = d"
  by (cases st) (auto simp: check_free_game_def split: option.splits)

text \<open>
  Claim C3, evaluated on the code. Game 7 is tracked as paid and is seen paid, free,
  free, paid, free in five successive passes. Only the second pass (index 1) sends a
  free-game message; the last pass (index 4) sends none. The reason is the second
  conjunct: a call of \<^verbatim>\<open>check_free_game\<close> for a game seen paid never changes the
  database, so the stored free-status stays true once it has been set.
\<close>

theorem free_again_not_reported:
  "map (filter (\<lambda>(c, n). \<not> is_new_low_notice n))
     (fst (monitor_run one_channel tracking_E 7 ''E''
        [(calm 1, Some (paid 10000)), (calm 2, Some free_now), (calm 3, Some free_now),
         (calm 4, Some (paid 10000)), (calm 5, Some free_now)]))
   = [[], [(10, FreeGameNotice 7 ''E'' None)], [], [], []]
   \<and> snd (check_free_game st d app False) = d"
proof -
  have "map (filter (\<lambda>(c, n). \<not> is_new_low_notice n))
     (fst (monitor_run one_channel tracking_E 7 ''E''
        [(calm 1, Some (paid 10000)), (calm 2, Some free_now), (calm 3, Some free_now),
         (calm 4, Some (paid 10000)), (calm 5, Some free_now)]))
   = [[], [(10, FreeGameNotice 7 ''E'' None)], [], [], []]"
    by (simp add: Let_def monitor_game_def monitor_free_def monitor_price_def
        check_free_game_def record_free_game_event_def record_price_def
        check_historical_low_def record_new_low_event_def calm_def one_channel_def paid_def
        free_now_def tracking_E_def init_db_def at_time_def)
  then show ?thesis by (simp add: check_free_game_paid_keeps)
qed

subsection \<open>Upcoming sales\<close>

text \<open>
  Claim C4, evaluated on the code. At 10:00 on 14 March 2026, the day the Spring Sale
  starts, \<^verbatim>\<open>check_upcoming_sales\<close> returns no sale: midnight of that day is before
  \<^verbatim>\<open>now\<close>, so the occurrence becomes 14 March 2027, 364 whole days away. At 10:00 on
  the day before, the sale is returned with \<^verbatim>\<open>days_until = 0\<close>.
\<close>

theorem sale_starting_today_not_due:
  "check_upcoming_sales (at_time 2026 3 14 10) = Inr []
   \<and> sale_occurrence (at_time 2026 3 14 10)
        \<lparr>month = 3, start_day = 14, duration = 14, emoji = ''blossom''\<rparr>
       = Inr (at_time 2027 3 14 0)
   \<and> delta_days (at_time 2027 3 14 0) (at_time 2026 3 14 10) = 364
   \<and> check_upcoming_sales (at_time 2026 3 13 10)
       = Inr [\<lparr>us_name = ''Spring Sale'', us_date = at_time 2026 3 14 0, us_days_until = 0,
               us_emoji = ''blossom'', us_duration = 14\<rparr>]"
  by (simp add: at_time_def check_upcoming_sales_def STEAM_SALES_CALENDAR_def
      sale_occurrence_def mk_datetime_def days_in_month_def is_leap_def dt_less_def
      dt_fields_def delta_days_def total_microseconds_def toordinal_def days_before_year_def
      days_before_month_def microseconds_of_day_def)

subsection \<open>The historical low\<close>

text \<open>
  Claim C8. For a game and region \<^verbatim>\<open>tw\<close> with no stored low, the prices 100, 90 and 95
  checked in this order give: a baseline of 100 with no old price and drop 0; then a
  new low with old price 100 and a drop of 10 percent, the stored low becoming 90; then
  no new low, the stored low staying 90.
\<close>

theorem three_observations_scenario:
  assumes "historical_low d (E, ''tw'') = None"
  shows "(case check_historical_low Available t1 d E ''tw'' 100 of (r1, d1) \<Rightarrow>
          case check_historical_low Available t2 d1 E ''tw'' 90 of (r2, d2) \<Rightarrow>
          case check_historical_low Available t3 d2 E ''tw'' 95 of (r3, d3) \<Rightarrow>
            r1 = Inr (True, None, 0) \<and> historical_low d1 (E, ''tw'') = Some (100, t1)
            \<and> r2 = Inr (True, Some 100, 10) \<and> historical_low d2 (E, ''tw'') = Some (90, t2)
            \<and> r3 = Inr (False, None, 0) \<and> historical_low d3 (E, ''tw'') = Some (90, t2))"
  using assms by (simp add: check_historical_low_def)

theorem three_observations_scenario_witness:
  "historical_low tracking_E (7, ''tw'') = None
   \<and> fst (check_historical_low Available (at_time 2026 1 1 2)
        (snd (check_historical_low Available (at_time 2026 1 1 1) tracking_E 7 ''tw'' 100))
        7 ''tw'' 90)
      = Inr (True, Some 100, 10)"
  using three_observations_scenario
          [of tracking_E 7 "at_time 2026 1 1 1" "at_time 2026 1 1 2" "at_time 2026 1 1 3"]
  by (simp add: tracking_E_def init_db_def split: prod.splits)

lemma low_step_other:
  "(app, region) \<noteq> k \<Longrightarrow>
   historical_low (snd (check_historical_low st now d app region p)) k = historical_low d k"
  by (cases st) (auto simp: check_historical_low_def split: option.splits)

lemma low_step_down:
  assumes "historical_low d k = Some (l, t)"
  shows "\<exists>l' t'. historical_low (snd (check_historical_low st now d app region p)) k = Some (l', t') \<and> l' \<le> l"
proof (cases "(app, region) = k")
  case False
  then show ?thesis using assms by (simp add: low_step_other)
next
  case True
  then show ?thesis using assms
    by (cases st) (auto simp: check_historical_low_def)
qed

lemma low_run_down:
  "historical_low d k = Some (l, t) \<Longrightarrow>
   \<exists>l' t'. historical_low (check_low_run d calls) k = Some (l', t') \<and> l' \<le> l"
proof (induction calls arbitrary: d l t)
  case Nil
  then show ?case by simp
next
  case (Cons c calls)
  obtain st now app region p where c: "c = (st, now, app, region, p)" by (cases c) auto
  from low_step_down [OF Cons.prems, of st now app region p]
  obtain l1 t1 where s: "historical_low (snd (check_historical_low st now d app region p)) k = Some (l1, t1)"
    and le: "l1 \<le> l" by blast
  from Cons.IH [OF s] obtain l' t' where
    "historical_low (check_low_run (snd (check_historical_low st now d app region p)) calls) k = Some (l', t')"
    and "l' \<le> l1" by blast
  with le show ?case unfolding c by auto
qed

lemma low_step_same:
  assumes "historical_low d (app, region) = Some (l, t)"
  shows "\<exists>t1. historical_low (snd (check_historical_low Available now d app region p)) (app, region)
           = Some (if 0 < p then min p l else l, t1)"
  using assms by (auto simp: check_historical_low_def min_def)

lemma low_run_min:
  assumes "historical_low d k = Some (l, t)" "\<forall>c \<in> set calls. fst c = Available"
  shows "stored_low (check_low_run d calls) k
           = Some (fold min (filter (\<lambda>p. 0 < p) (prices_for k calls)) l)"
  using assms
proof (induction calls arbitrary: d l t)
  case Nil
  then show ?case by (simp add: prices_for_def stored_low_def)
next
  case (Cons c calls)
  obtain st now app region p where c: "c = (st, now, app, region, p)" by (cases c) auto
  from Cons.prems c have st: "st = Available" and rest: "\<forall>c \<in> set calls. fst c = Available" by auto
  let ?d1 = "snd (check_historical_low st now d app region p)"
  have run: "check_low_run d (c # calls) = check_low_run ?d1 calls" unfolding c by simp
  show ?case
  proof (cases "(app, region) = k")
    case False
    then have "historical_low ?d1 k = Some (l, t)" using Cons.prems(1) by (simp add: low_step_other)
    from Cons.IH [OF this rest] have "stored_low (check_low_run ?d1 calls) k
        = Some (fold min (filter (\<lambda>p. 0 < p) (prices_for k calls)) l)" .
    moreover have "prices_for k (c # calls) = prices_for k calls"
      using False unfolding c by (simp add: prices_for_def)
    ultimately show ?thesis unfolding run by simp
  next
    case True
    from low_step_same [of d app region l t now p] Cons.prems(1) True st
    obtain t1 where "historical_low ?d1 k = Some (if 0 < p then min p l else l, t1)"
      by auto
    from Cons.IH [OF this rest] have "stored_low (check_low_run ?d1 calls) k
        = Some (fold min (filter (\<lambda>p. 0 < p) (prices_for k calls)) (if 0 < p then min p l else l))" .
    moreover have "prices_for k (c # calls) = p # prices_for k calls"
      using True unfolding c by (simp add: prices_for_def)
    ultimately show ?thesis unfolding run by (cases "0 < p") simp_all
  qed
qed

lemma low_run_first:
  assumes "historical_low d k = None" "prices_for k calls = p0 # ps" "\<forall>c \<in> set calls. fst c = Available"
  shows "stored_low (check_low_run d calls) k = Some (fold min (filter (\<lambda>p. 0 < p) ps) p0)"
  using assms
proof (induction calls arbitrary: d)
  case Nil
  then show ?case by (simp add: prices_for_def)
next
  case (Cons c calls)
  obtain st now app region p where c: "c = (st, now, app, region, p)" by (cases c) auto
  from Cons.prems c have st: "st = Available" and rest: "\<forall>c \<in> set calls. fst c = Available" by auto
  let ?d1 = "snd (check_historical_low st now d app region p)"
  have run: "check_low_run d (c # calls) = check_low_run ?d1 calls" unfolding c by simp
  show ?case
  proof (cases "(app, region) = k")
    case False
    then have a: "historical_low ?d1 k = None" using Cons.prems(1) by (simp add: low_step_other)
    from False Cons.prems(2) have b: "prices_for k calls = p0 # ps" unfolding c by (simp add: prices_for_def)
    from Cons.IH [OF a b rest] show ?thesis unfolding run .
  next
    case True
    with Cons.prems(2) have p: "p = p0" and ps: "prices_for k calls = ps"
      unfolding c by (simp_all add: prices_for_def)
    from True Cons.prems(1) st have "historical_low ?d1 k = Some (p0, now)"
      by (auto simp: check_historical_low_def p)
    from low_run_min [OF this rest] show ?thesis unfolding run ps .
  qed
qed

text \<open>
  Claim C2, as the claim states it, fails: after the prices 100 and 0 for one game and
  region the stored low is 100, not the minimum 0 of the prices observed.
\<close>

theorem stored_low_counterexample:
  "stored_low (check_low_run init_db
       [(Available, at_time 2026 1 1 1, 7, ''tw'', 100), (Available, at_time 2026 1 1 2, 7, ''tw'', 0)])
       (7, ''tw'') = Some 100
   \<and> Min (set [100, 0 :: price]) = 0"
  by (simp add: stored_low_def check_historical_low_def init_db_def)

text \<open>
  Claim C2, amended. Over any sequence of calls of \<^verbatim>\<open>check_historical_low\<close> a stored
  low never rises. When the row does not exist at the start and every call runs with
  the database available, the stored low after the sequence is the minimum of the first
  price passed for that game and region and of the later prices for it that are
  greater than zero.
\<close>

theorem stored_low_is_guarded_minimum:
  "(historical_low d k = Some (l, t) \<longrightarrow>
      (\<exists>l' t'. historical_low (check_low_run d calls) k = Some (l', t') \<and> l' \<le> l))
   \<and> (historical_low d k = None \<and> prices_for k calls = p0 # ps
        \<and> (\<forall>c \<in> set calls. fst c = Available) \<longrightarrow>
        stored_low (check_low_run d calls) k = Some (Min (set (p0 # filter (\<lambda>p. 0 < p) ps))))"
proof -
  have m: "Min (set (p0 # filter (\<lambda>p. 0 < p) ps)) = fold min (filter (\<lambda>p. 0 < p) ps) p0"
    by (rule Min.set_eq_fold)
  show ?thesis unfolding m
    using low_run_down [of d k l t calls] low_run_first [of d k calls p0 ps] by blast
qed

theorem stored_low_is_guarded_minimum_witness:
  "historical_low init_db (7, ''tw'') = None
   \<and> prices_for (7, ''tw'') [(Available, at_time 2026 1 1 1, 7, ''tw'', 100), (Available, at_time 2026 1 1 2, 7, ''tw'', 0),
        (Available, at_time 2026 1 1 3, 7, ''tw'', 90)] = [100, 0, 90]
   \<and> stored_low (check_low_run init_db
       [(Available, at_time 2026 1 1 1, 7, ''tw'', 100), (Available, at_time 2026 1 1 2, 7, ''tw'', 0),
        (Available, at_time 2026 1 1 3, 7, ''tw'', 90)]) (7, ''tw'') = Some 90"
  using stored_low_is_guarded_minimum [of init_db "(7, ''tw'')" _ _
      "[(Available, at_time 2026 1 1 1, 7, ''tw'', 100), (Available, at_time 2026 1 1 2, 7, ''tw'', 0),
        (Available, at_time 2026 1 1 3, 7, ''tw'', 90)]" 100 "[0, 90]"]
  by (simp add: init_db_def prices_for_def)

subsection \<open>One pass of the loop body\<close>

lemma send_to_all_only:
  "send_to_all e channels_info n sent = (r, out) \<Longrightarrow> \<forall>x \<in> set out. x \<in> set sent \<or> snd x = n"
proof (induction channels_info arbitrary: sent)
  case Nil
  then show ?case by auto
next
  case (Cons c channels_info)
  obtain guild_id channel_id enable_sale where c: "c = (guild_id, channel_id, enable_sale)"
    by (cases c) auto
  from Cons.prems show ?case unfolding c
    by (auto split: if_splits dest!: Cons.IH)
qed

lemma send_to_all_fresh:
  "send_to_all e channels_info n [] = (r, out) \<Longrightarrow> \<forall>x \<in> set out. snd x = n"
  by (drule send_to_all_only) simp

lemma monitor_free_frame:
  assumes "monitor_free e channels_info d app name gi = (r, sent, d1)"
  shows "historical_low d1 = historical_low d \<and> new_low_events d1 = new_low_events d
         \<and> (\<forall>x \<in> set sent. \<not> is_new_low_notice (snd x))"
  using assms
  by (cases "store e AtCheckFree"; cases "store e AtRecordFree")
     (auto simp: monitor_free_def check_free_game_def record_free_game_event_def
        split: option.splits if_splits prod.splits dest!: send_to_all_fresh)

lemma monitor_free_paid:
  "gi_is_free gi \<noteq> Some True \<Longrightarrow>
   monitor_free e channels_info d app name gi
     = (if store e AtCheckFree = ConnectFails then Some UnboundLocalError else None, [], d)"
  by (cases "store e AtCheckFree"; cases "gi_is_free gi")
     (auto simp: monitor_free_def check_free_game_def split: option.splits)

lemma monitor_price_not_below:
  assumes "historical_low d (app, ''tw'') = Some (low, date)" "gi_price_overview gi = Some po"
    "low \<le> of_int (po_final po) / 100" "monitor_price e channels_info d app name gi = (r, sent, d1)"
  shows "historical_low d1 = historical_low d \<and> new_low_events d1 = new_low_events d \<and> sent = []"
  using assms
  by (cases "store e AtRecordPrice"; cases "store e AtCheckLow")
     (auto simp: monitor_price_def record_price_def check_historical_low_def Let_def
        split: option.splits if_splits)

lemma monitor_price_check_down:
  assumes "store e AtCheckLow \<noteq> Available" "monitor_price e channels_info d app name gi = (r, sent, d1)"
  shows "historical_low d1 = historical_low d \<and> new_low_events d1 = new_low_events d \<and> sent = []"
  using assms
  by (cases "store e AtRecordPrice"; cases "store e AtCheckLow")
     (auto simp: monitor_price_def record_price_def check_historical_low_def Let_def
        split: option.splits if_splits)

lemma monitor_price_committed:
  assumes "monitor_price e channels_info d app name gi = (r, sent, d1)"
    "new_low_events d1 \<noteq> new_low_events d \<or> sent \<noteq> []"
  shows "\<exists>po. gi_price_overview gi = Some po
           \<and> historical_low d1 (app, ''tw'') = Some (of_int (po_final po) / 100, clock e AtCheckLow)"
  using assms
  by (cases "store e AtRecordPrice"; cases "store e AtCheckLow"; cases "store e AtRecordNewLow")
     (auto simp: monitor_price_def record_price_def check_historical_low_def
        record_new_low_event_def Let_def split: option.splits if_splits prod.splits)

lemma monitor_price_log_down:
  assumes "store e AtRecordNewLow \<noteq> Available" "monitor_price e channels_info d app name gi = (r, sent, d1)"
  shows "new_low_events d1 = new_low_events d"
  using assms
  by (cases "store e AtRecordPrice"; cases "store e AtCheckLow"; cases "store e AtRecordNewLow")
     (auto simp: monitor_price_def record_price_def check_historical_low_def
        record_new_low_event_def Let_def split: option.splits if_splits prod.splits)

lemma monitor_game_split:
  assumes "monitor_game e channels_info d app name (Some gi) = (r, sent, d2)"
  obtains (no_channel) "channels_info = []" "r = None" "sent = []" "d2 = d"
  | (stopped) err where "channels_info \<noteq> []"
      "monitor_free e channels_info d app name gi = (Some err, sent, d2)"
  | (went_on) sent1 d1 sent2 where "channels_info \<noteq> []"
      "monitor_free e channels_info d app name gi = (None, sent1, d1)"
      "monitor_price e channels_info d1 app name gi = (r, sent2, d2)" "sent = sent1 @ sent2"
  using assms
  by (auto simp: monitor_game_def split: prod.splits option.splits if_splits)

text \<open>
  Claim C6. When a row exists for the game and region and the price is not below the
  stored low, \<^verbatim>\<open>check_historical_low\<close> leaves the database as it is (row, price and
  date) and reports no new low, whatever the state of the database file. In
  \<^verbatim>\<open>monitor_prices\<close>, for a game not seen free whose price is not below the stored low
  for \<^verbatim>\<open>tw\<close>, \<^verbatim>\<open>historical_low\<close> and \<^verbatim>\<open>new_low_events\<close> stay as they are and no
  message is sent.
\<close>

theorem no_new_low_when_not_below:
  assumes "historical_low d (app, region) = Some (low, date)" and "low \<le> p"
  shows "check_historical_low st now d app region p
           = (if st = ConnectFails then Inl UnboundLocalError else Inr (False, None, 0), d)
    \<and> (region = ''tw'' \<and> gi_is_free gi \<noteq> Some True \<and> gi_price_overview gi = Some po
         \<and> of_int (po_final po) / 100 = p \<longrightarrow>
        (case monitor_game e channels_info d app name (Some gi) of (r, sent, d1) \<Rightarrow>
           historical_low d1 = historical_low d \<and> new_low_events d1 = new_low_events d
           \<and> sent = []))"
proof -
  have one: "check_historical_low st now d app region p
           = (if st = ConnectFails then Inl UnboundLocalError else Inr (False, None, 0), d)"
    using assms by (cases st) (auto simp: check_historical_low_def)
  have two: "historical_low d1 = historical_low d \<and> new_low_events d1 = new_low_events d \<and> sent = []"
    if tw: "region = ''tw''" and paid: "gi_is_free gi \<noteq> Some True"
      and po: "gi_price_overview gi = Some po" and p: "of_int (po_final po) / 100 = p"
      and run: "monitor_game e channels_info d app name (Some gi) = (r, sent, d1)" for r sent d1
    using run
  proof (cases rule: monitor_game_split)
    case no_channel
    then show ?thesis by simp
  next
    case (stopped err)
    then show ?thesis using paid by (simp add: monitor_free_paid split: if_splits)
  next
    case (went_on sent1 d0 sent2)
    from went_on(2) paid have "sent1 = []" "d0 = d" by (simp_all add: monitor_free_paid split: if_splits)
    with went_on(3,4) monitor_price_not_below [of d app low date gi po e channels_info name r sent2 d1]
      assms tw po p show ?thesis by simp
  qed
  show ?thesis using one two by (auto split: prod.splits)
qed

theorem no_new_low_when_not_below_witness:
  "historical_low low_100 (7, ''tw'') = Some (100, at_time 2026 1 1 0)
   \<and> (100 :: price) \<le> 120
   \<and> monitor_game (calm 3) one_channel low_100 7 ''E'' (Some (paid 12000))
       = (None, [], low_100\<lparr>price_history := [(7, ''tw'', at_time 2026 1 1 3) \<mapsto> (120, 0)]\<rparr>)"
  using no_new_low_when_not_below [of low_100 7 "''tw''" 100 "at_time 2026 1 1 0" 120 Available
      "at_time 2026 1 1 3" "paid 12000"
      "\<lparr>po_final = 12000, po_currency = ''TWD'', po_discount_percent = Some 0\<rparr>"
      "calm 3" one_channel "''E''"]
  by (simp add: low_100_def tracking_E_def init_db_def paid_def calm_def one_channel_def
      monitor_game_def monitor_free_def monitor_price_def check_free_game_def record_price_def
      check_historical_low_def Let_def)

lemma monitor_price_first:
  assumes "historical_low d (app, ''tw'') = None" "gi_is_free gi \<noteq> Some True"
    "gi_price_overview gi = Some po" "\<forall>s. store e s = Available"
  shows "monitor_price e channels_info d app name gi
     = (case send_to_all e channels_info
               (NewLowNotice app name (po_currency po) (of_int (po_final po) / 100)
                  (case po_discount_percent po of None \<Rightarrow> 0 | Some x \<Rightarrow> x) None
                  (gi_header_image gi)) [] of
          (r, sent) \<Rightarrow>
            (r, sent,
             d\<lparr>price_history := (price_history d)((app, ''tw'', clock e AtRecordPrice) \<mapsto>
                   (of_int (po_final po) / 100,
                    case po_discount_percent po of None \<Rightarrow> 0 | Some x \<Rightarrow> x)),
               historical_low := (historical_low d)((app, ''tw'') \<mapsto>
                   (of_int (po_final po) / 100, clock e AtCheckLow)),
               new_low_events := new_low_events d @
                 [\<lparr>nle_app_id = app, nle_game_name = name, nle_region = ''Taiwan'',
                   nle_price = of_int (po_final po) / 100, nle_currency = po_currency po,
                   nle_date = clock e AtRecordNewLow\<rparr>]\<rparr>))"
  using assms
  by (cases "gi_is_free gi")
     (auto simp: monitor_price_def record_price_def check_historical_low_def
        record_new_low_event_def Let_def split: prod.splits)

text \<open>
  Claim C1, as the claim states it, fails: the first observation of a paid game with no
  stored low is reported as a new low. A row is added to \<^verbatim>\<open>new_low_events\<close> and the
  new-low message is sent.
\<close>

theorem first_observation_counterexample:
  "historical_low tracking_E (7, ''tw'') = None
   \<and> gi_is_free (paid 10000) = Some False
   \<and> (case monitor_game (calm 1) one_channel tracking_E 7 ''E'' (Some (paid 10000)) of
        (r, sent, d1) \<Rightarrow>
          sent = [(10, NewLowNotice 7 ''E'' ''TWD'' 100 0 None None)]
          \<and> new_low_events d1
              = [\<lparr>nle_app_id = 7, nle_game_name = ''E'', nle_region = ''Taiwan'', nle_price = 100,
                  nle_currency = ''TWD'', nle_date = at_time 2026 1 1 1\<rparr>]
          \<and> historical_low d1 (7, ''tw'') = Some (100, at_time 2026 1 1 1))"
  by (simp add: tracking_E_def init_db_def paid_def calm_def one_channel_def monitor_game_def
      monitor_free_def monitor_price_def check_free_game_def record_price_def
      check_historical_low_def record_new_low_event_def Let_def)

text \<open>
  Claim C1, amended. When no row exists for the game and region, \<^verbatim>\<open>check_historical_low\<close>
  inserts the price as the baseline and returns \<^verbatim>\<open>(True, None, 0)\<close>. In
  \<^verbatim>\<open>monitor_prices\<close>, with at least one channel configured and the database available,
  the first observation of a game not seen free then stores the baseline for \<^verbatim>\<open>tw\<close>,
  appends one row to \<^verbatim>\<open>new_low_events\<close> and sends the new-low message, without the
  drop and previous-low fields, to the configured channels.
\<close>

theorem first_observation_reported_as_new_low:
  assumes "historical_low d (app, region) = None"
  shows "check_historical_low Available now d app region p
           = (Inr (True, None, 0),
              d\<lparr>historical_low := (historical_low d)((app, region) \<mapsto> (p, now))\<rparr>)
    \<and> (region = ''tw'' \<and> channels_info \<noteq> [] \<and> gi_is_free gi \<noteq> Some True
         \<and> gi_price_overview gi = Some po \<and> of_int (po_final po) / 100 = p
         \<and> (\<forall>s. store e s = Available) \<longrightarrow>
        (case monitor_game e channels_info d app name (Some gi) of (r, sent, d1) \<Rightarrow>
           historical_low d1 (app, ''tw'') = Some (p, clock e AtCheckLow)
           \<and> new_low_events d1 = new_low_events d @
                [\<lparr>nle_app_id = app, nle_game_name = name, nle_region = ''Taiwan'',
                  nle_price = p, nle_currency = po_currency po,
                  nle_date = clock e AtRecordNewLow\<rparr>]
           \<and> (r, sent) = send_to_all e channels_info
                (NewLowNotice app name (po_currency po) p
                   (case po_discount_percent po of None \<Rightarrow> 0 | Some x \<Rightarrow> x) None
                   (gi_header_image gi)) []))"
proof -
  have one: "check_historical_low Available now d app region p
           = (Inr (True, None, 0),
              d\<lparr>historical_low := (historical_low d)((app, region) \<mapsto> (p, now))\<rparr>)"
    using assms by (simp add: check_historical_low_def)
  have two: "(case monitor_game e channels_info d app name (Some gi) of (r, sent, d1) \<Rightarrow>
           historical_low d1 (app, ''tw'') = Some (p, clock e AtCheckLow)
           \<and> new_low_events d1 = new_low_events d @
                [\<lparr>nle_app_id = app, nle_game_name = name, nle_region = ''Taiwan'',
                  nle_price = p, nle_currency = po_currency po,
                  nle_date = clock e AtRecordNewLow\<rparr>]
           \<and> (r, sent) = send_to_all e channels_info
                (NewLowNotice app name (po_currency po) p
                   (case po_discount_percent po of None \<Rightarrow> 0 | Some x \<Rightarrow> x) None
                   (gi_header_image gi)) [])"
    if tw: "region = ''tw''" and ch: "channels_info \<noteq> []"
      and paid: "gi_is_free gi \<noteq> Some True"
      and po: "gi_price_overview gi = Some po" and p: "of_int (po_final po) / 100 = p"
      and up: "\<forall>s. store e s = Available"
  proof -
    from assms tw have none: "historical_low d (app, ''tw'') = None" by simp
    have free: "monitor_free e channels_info d app name gi = (None, [], d)"
      using paid up by (simp add: monitor_free_paid)
    show ?thesis
      unfolding monitor_game_def using p ch
      by (simp add: free monitor_price_first [OF none paid po up] split: prod.splits)
  qed
  show ?thesis
  proof (intro conjI impI)
    show "check_historical_low Available now d app region p
           = (Inr (True, None, 0),
              d\<lparr>historical_low := (historical_low d)((app, region) \<mapsto> (p, now))\<rparr>)"
      by (rule one)
  next
    assume "region = ''tw'' \<and> channels_info \<noteq> [] \<and> gi_is_free gi \<noteq> Some True
         \<and> gi_price_overview gi = Some po \<and> of_int (po_final po) / 100 = p
         \<and> (\<forall>s. store e s = Available)"
    then show "(case monitor_game e channels_info d app name (Some gi) of (r, sent, d1) \<Rightarrow>
           historical_low d1 (app, ''tw'') = Some (p, clock e AtCheckLow)
           \<and> new_low_events d1 = new_low_events d @
                [\<lparr>nle_app_id = app, nle_game_name = name, nle_region = ''Taiwan'',
                  nle_price = p, nle_currency = po_currency po,
                  nle_date = clock e AtRecordNewLow\<rparr>]
           \<and> (r, sent) = send_to_all e channels_info
                (NewLowNotice app name (po_currency po) p
                   (case po_discount_percent po of None \<Rightarrow> 0 | Some x \<Rightarrow> x) None
                   (gi_header_image gi)) [])"
      by (intro two) simp_all
  qed
qed

theorem first_observation_reported_as_new_low_witness:
  "historical_low tracking_E (7, ''tw'') = None
   \<and> one_channel \<noteq> []
   \<and> gi_price_overview (paid 10000)
       = Some \<lparr>po_final = 10000, po_currency = ''TWD'', po_discount_percent = Some 0\<rparr>
   \<and> store (calm 1) AtCheckLow = Available
   \<and> fst (snd (monitor_game (calm 1) one_channel tracking_E 7 ''E'' (Some (paid 10000))))
       = [(10, NewLowNotice 7 ''E'' ''TWD'' 100 0 None None)]"
  using first_observation_reported_as_new_low [where d = tracking_E and app = 7
      and region = "''tw''" and p = 100 and gi = "paid 10000"
      and po = "\<lparr>po_final = 10000, po_currency = ''TWD'', po_discount_percent = Some 0\<rparr>"
      and e = "calm 1" and channels_info = one_channel and name = "''E''"
      and now = "at_time 2026 1 1 1"]
  by (simp add: tracking_E_def init_db_def paid_def calm_def one_channel_def monitor_game_def
      monitor_free_def monitor_price_def check_free_game_def record_price_def
      check_historical_low_def record_new_low_event_def Let_def)

text \<open>
  Claim C9, as the claim states it, fails: when only the insert into
  \<^verbatim>\<open>new_low_events\<close> fails, the stored low has already been lowered from 100 to 90 and
  stays so, no event row exists, and the new-low message is sent all the same.
\<close>

theorem event_log_down_counterexample:
  "store (event_log_down 2) AtRecordNewLow = ExecuteFails
   \<and> historical_low low_100 (7, ''tw'') = Some (100, at_time 2026 1 1 0)
   \<and> (case monitor_game (event_log_down 2) one_channel low_100 7 ''E'' (Some (paid 9000)) of
        (r, sent, d1) \<Rightarrow>
          historical_low d1 (7, ''tw'') = Some (90, at_time 2026 1 1 2)
          \<and> new_low_events d1 = new_low_events low_100
          \<and> sent = [(10, NewLowNotice 7 ''E'' ''TWD'' 90 0 (Some (10, 100)) None)])"
  by (simp add: event_log_down_def low_100_def tracking_E_def init_db_def paid_def calm_def
      one_channel_def monitor_game_def monitor_free_def monitor_price_def check_free_game_def
      record_price_def check_historical_low_def record_new_low_event_def Let_def)

text \<open>
  Claim C9, amended. A call of \<^verbatim>\<open>check_historical_low\<close> during which the database is
  not available leaves the database as it was and reports no new low. In
  \<^verbatim>\<open>monitor_prices\<close>: when the database is not available at \<^verbatim>\<open>check_historical_low\<close>,
  \<^verbatim>\<open>historical_low\<close> and \<^verbatim>\<open>new_low_events\<close> are unchanged and no new-low message is
  sent; a new row in \<^verbatim>\<open>new_low_events\<close> or a new-low message exists only when the
  observed price is the stored low for \<^verbatim>\<open>tw\<close>, written by this pass's check; and
  when the database is not available at \<^verbatim>\<open>record_new_low_event\<close>, no event row is
  added.
\<close>

theorem store_failure_effects:
  "(st \<noteq> Available \<longrightarrow>
      snd (check_historical_low st now d app region p) = d
      \<and> fst (check_historical_low st now d app region p)
          = (if st = ConnectFails then Inl UnboundLocalError else Inr (False, None, 0)))
   \<and> (case monitor_game e channels_info d app name (Some gi) of (r, sent, d1) \<Rightarrow>
        (store e AtCheckLow \<noteq> Available \<longrightarrow>
           historical_low d1 = historical_low d \<and> new_low_events d1 = new_low_events d
           \<and> (\<forall>x \<in> set sent. \<not> is_new_low_notice (snd x)))
        \<and> (new_low_events d1 \<noteq> new_low_events d \<or> (\<exists>x \<in> set sent. is_new_low_notice (snd x)) \<longrightarrow>
             (\<exists>po. gi_price_overview gi = Some po
                \<and> historical_low d1 (app, ''tw'')
                    = Some (of_int (po_final po) / 100, clock e AtCheckLow)))
        \<and> (store e AtRecordNewLow \<noteq> Available \<longrightarrow> new_low_events d1 = new_low_events d))"
proof -
  have atomic: "snd (check_historical_low st now d app region p) = d
      \<and> fst (check_historical_low st now d app region p)
          = (if st = ConnectFails then Inl UnboundLocalError else Inr (False, None, 0))"
    if "st \<noteq> Available"
    using that by (cases st) (simp_all add: check_historical_low_def)
  have pass: "(store e AtCheckLow \<noteq> Available \<longrightarrow>
           historical_low d1 = historical_low d \<and> new_low_events d1 = new_low_events d
           \<and> (\<forall>x \<in> set sent. \<not> is_new_low_notice (snd x)))
        \<and> (new_low_events d1 \<noteq> new_low_events d \<or> (\<exists>x \<in> set sent. is_new_low_notice (snd x)) \<longrightarrow>
             (\<exists>po. gi_price_overview gi = Some po
                \<and> historical_low d1 (app, ''tw'')
                    = Some (of_int (po_final po) / 100, clock e AtCheckLow)))
        \<and> (store e AtRecordNewLow \<noteq> Available \<longrightarrow> new_low_events d1 = new_low_events d)"
    if run: "monitor_game e channels_info d app name (Some gi) = (r, sent, d1)" for r sent d1
    using run
  proof (cases rule: monitor_game_split)
    case no_channel
    then show ?thesis by simp
  next
    case (stopped err)
    from monitor_free_frame [OF stopped(2)] show ?thesis by auto
  next
    case (went_on sent1 d0 sent2)
    note free = monitor_free_frame [OF went_on(2)]
    have a: "historical_low d1 = historical_low d \<and> new_low_events d1 = new_low_events d
           \<and> (\<forall>x \<in> set sent. \<not> is_new_low_notice (snd x))"
      if "store e AtCheckLow \<noteq> Available"
      using monitor_price_check_down [OF that went_on(3)] free went_on(4) by auto
    have b: "\<exists>po. gi_price_overview gi = Some po
                \<and> historical_low d1 (app, ''tw'')
                    = Some (of_int (po_final po) / 100, clock e AtCheckLow)"
      if "new_low_events d1 \<noteq> new_low_events d \<or> (\<exists>x \<in> set sent. is_new_low_notice (snd x))"
    proof -
      from that free went_on(4)
      have "new_low_events d1 \<noteq> new_low_events d0 \<or> sent2 \<noteq> []" by auto
      from monitor_price_committed [OF went_on(3) this] show ?thesis .
    qed
    have c: "new_low_events d1 = new_low_events d" if "store e AtRecordNewLow \<noteq> Available"
      using monitor_price_log_down [OF that went_on(3)] free by simp
    show ?thesis using a b c by blast
  qed
  show ?thesis using atomic pass by (auto split: prod.splits)
qed

theorem store_failure_effects_witness:
  "store (event_log_down 2) AtRecordNewLow \<noteq> Available
   \<and> new_low_events (snd (snd (monitor_game (event_log_down 2) one_channel low_100 7 ''E''
        (Some (paid 9000))))) = new_low_events low_100
   \<and> snd (check_historical_low ExecuteFails (at_time 2026 1 1 2) low_100 7 ''tw'' 90) = low_100"
  using store_failure_effects [where st = ExecuteFails and now = "at_time 2026 1 1 2"
      and d = low_100 and app = 7 and region = "''tw''" and p = 90
      and e = "event_log_down 2" and channels_info = one_channel and name = "''E''"
      and gi = "paid 9000"]
  by (simp add: event_log_down_def low_100_def tracking_E_def init_db_def paid_def calm_def
      one_channel_def monitor_game_def monitor_free_def monitor_price_def check_free_game_def
      record_price_def check_historical_low_def record_new_low_event_def Let_def)

end
